theory Spec2Isabelle
  imports Main "HOL-Library.Word"
begin

section \<open>Packets\<close>

type_synonym u16 = "16 word"
type_synonym u32 = "32 word"
type_synonym byte = "8 word"

text \<open>
  Modelled from the spec: package \<open>packet\<close> is imported by every source file and is
  not among them. The record holds the fields and accessors the sources read
  (\<open>pck.SeqNo\<close>, \<open>p.AckNo\<close>, \<open>p.Length\<close>, \<open>p.Payload\<close>, \<open>p.IsSYN()\<close>,
  \<open>p.IsACK()\<close>, \<open>p.IsFIN()\<close>, \<open>p.IsERR()\<close>) with the widths of the spec's data model:
  32-bit sequence and acknowledgement numbers, a 16-bit payload length, four independent
  boolean flags and the payload bytes. Every \<open>*packet.Packet\<close> handled below is taken
  to be non-nil, except where a channel receive yields the nil zero value.
\<close>

record packet =
  SeqNo :: u32
  AckNo :: u32
  Length :: u16
  Payload :: "byte list"
  IsSYN :: bool
  IsACK :: bool
  IsFIN :: bool
  IsERR :: bool

section \<open>Errors\<close>

datatype flag = SYN | ACK | FIN | ERR

text \<open>
  One constructor per error value the sources build:
  \<^item> \<open>CouldNotSendPacket e\<close>: \<open>fmt.Errorf("could not send packet: %s", err)\<close>;
  \<^item> \<open>InvalidLocalAddress\<close>: \<open>errors.New("invalid local address")\<close>;
  \<^item> \<open>RemoteAddressNil\<close>: \<open>errors.New("remote address cannot be nil")\<close>;
  \<^item> \<open>ApplicationNil\<close>, \<open>NetworkNil\<close>: the two "connection to ... layer cannot be nil";
  \<^item> \<open>CouldNotInitializePacketFactory e\<close>:
    \<open>errors.Wrap(err, "could not initialize new packetfactory")\<close>;
  \<^item> \<open>FlagMismatch f want got\<close>: "expected a packet with f[want] but got one with f[got]";
  \<^item> \<open>OperationTimedOut\<close>: \<open>errors.New("operation timed out")\<close>.
\<close>

datatype error =
    CouldNotSendPacket string
  | InvalidLocalAddress
  | RemoteAddressNil
  | ApplicationNil
  | NetworkNil
  | CouldNotInitializePacketFactory string
  | FlagMismatch flag bool bool
  | OperationTimedOut

section \<open>The transmissions controller (atc/atc.go)\<close>

text \<open>
  The struct \<open>AirTrafficCtrl\<close>. The embedded mutex is held for the whole of \<open>Send\<close> and
  of \<open>Ack\<close>, so each call is one atomic step on the record. The transmit callback
  \<open>fwFunc\<close> acts on whatever lies outside the controller (the network): it takes that
  outside state \<open>'w\<close> and returns its error (\<open>None\<close> for \<open>nil\<close>) with the new outside
  state. \<open>ackWait\<close> is a \<open>time.Duration\<close>, in nanoseconds.
\<close>

record 'w AirTrafficCtrl =
  ackWait :: nat
  fwFunc :: "packet \<Rightarrow> 'w \<Rightarrow> string option \<times> 'w"
  inFlight :: "u32 \<rightharpoonup> packet"

definition defaultAckWaitTime :: nat where
  "defaultAckWaitTime = 1000000000 * 1"

definition NewAirTrafficCtrl :: "(packet \<Rightarrow> 'w \<Rightarrow> string option \<times> 'w) \<Rightarrow> 'w AirTrafficCtrl" where
  "NewAirTrafficCtrl f = \<lparr>ackWait = defaultAckWaitTime, fwFunc = f, inFlight = Map.empty\<rparr>"

text \<open>
  \<open>Send\<close> registers the packet under its sequence number, then calls the callback; the
  callback's error is wrapped and returned. The result is the returned error, the
  controller after the call and the outside state after the call.
\<close>

definition Send :: "packet \<Rightarrow> 'w AirTrafficCtrl \<times> 'w \<Rightarrow> error option \<times> 'w AirTrafficCtrl \<times> 'w" where
  "Send pck st =
     (case st of (atc, w) \<Rightarrow>
        (let atc' = atc\<lparr>inFlight := (inFlight atc)(SeqNo pck \<mapsto> pck)\<rparr> in
         case fwFunc atc' pck w of
           (Some err, w') \<Rightarrow> (Some (CouldNotSendPacket err), atc', w')
         | (None, w') \<Rightarrow> (None, atc', w')))"

text \<open>\<open>Ack\<close> has no result: Go's \<open>delete\<close> on a map is a no-op for an absent key.\<close>

definition Ack :: "u32 \<Rightarrow> 'w AirTrafficCtrl \<Rightarrow> 'w AirTrafficCtrl" where
  "Ack num atc = atc\<lparr>inFlight := (inFlight atc)(num := None)\<rparr>"

text \<open>
  A client of the controller can only call its two methods. \<open>run\<close> plays a sequence of
  such calls in order (the errors \<open>Send\<close> returns are dropped by this client).
\<close>

datatype atc_call = CallSend packet | CallAck u32

fun run :: "atc_call list \<Rightarrow> 'w AirTrafficCtrl \<times> 'w \<Rightarrow> 'w AirTrafficCtrl \<times> 'w" where
  "run [] st = st"
| "run (CallSend pck # cs) st = run cs (snd (Send pck st))"
| "run (CallAck num # cs) st = run cs (Ack num (fst st), snd st)"

text \<open>The packets the calls of a sequence hand to \<open>Send\<close>, in order.\<close>

fun sends :: "atc_call list \<Rightarrow> packet list" where
  "sends [] = []"
| "sends (CallSend pck # cs) = pck # sends cs"
| "sends (CallAck num # cs) = sends cs"

text \<open>
  Two callbacks over an outside state that is the list of packets put on the wire:
  \<open>wire_ok\<close> transmits and succeeds, \<open>wire_down\<close> transmits nothing and fails.
\<close>

definition wire_ok :: "packet \<Rightarrow> packet list \<Rightarrow> string option \<times> packet list" where
  "wire_ok pck w = (None, w @ [pck])"

definition wire_down :: "packet \<Rightarrow> packet list \<Rightarrow> string option \<times> packet list" where
  "wire_down pck w = (Some ''network is unreachable'', w)"

definition data_packet :: "u32 \<Rightarrow> u32 \<Rightarrow> byte list \<Rightarrow> packet" where
  "data_packet seqno ackno bs =
     \<lparr>SeqNo = seqno, AckNo = ackno, Length = word_of_nat (length bs), Payload = bs,
      IsSYN = False, IsACK = False, IsFIN = False, IsERR = False\<rparr>"

section \<open>Go channels\<close>

text \<open>
  A channel is its buffered values, its capacity and whether it has been closed. A send
  on a closed channel and a second close panic. A send on a full channel blocks until a
  receiver takes a value: in this sequential model the call does not complete in that
  state (\<open>Blocked\<close>). A receive takes the oldest buffered value; on an empty closed
  channel it yields the zero value at once, on an empty open one it is not ready.
\<close>

record 'a chan =
  buf :: "'a list"
  cap :: nat
  closed :: bool

datatype 'a res = Ok 'a | Panic string | Blocked

datatype 'a recv = Received 'a "'a chan" | ZeroValue | NotReady

definition make_chan :: "nat \<Rightarrow> 'a chan" where
  "make_chan n = \<lparr>buf = [], cap = n, closed = False\<rparr>"

definition chan_send :: "'a \<Rightarrow> 'a chan \<Rightarrow> 'a chan res" where
  "chan_send v c =
     (if closed c then Panic ''send on closed channel''
      else if length (buf c) < cap c then Ok (c\<lparr>buf := buf c @ [v]\<rparr>)
      else Blocked)"

definition chan_close :: "'a chan \<Rightarrow> 'a chan res" where
  "chan_close c =
     (if closed c then Panic ''close of closed channel'' else Ok (c\<lparr>closed := True\<rparr>))"

definition chan_recv :: "'a chan \<Rightarrow> 'a recv" where
  "chan_recv c =
     (case buf c of
        x # xs \<Rightarrow> Received x (c\<lparr>buf := xs\<rparr>)
      | [] \<Rightarrow> if closed c then ZeroValue else NotReady)"

section \<open>Calls on collaborators, loop control, reads\<close>

text \<open>
  The calls a socket operation makes on its collaborators, in program order:
  \<open>s.atc.Ack(n)\<close>, \<open>s.application.Write(b)\<close> and \<open>s.application.Close()\<close>. The
  application connection is a \<open>net.Conn\<close> whose implementation is outside the
  repository, and the results of \<open>Write\<close> and \<open>Close\<close> are ignored by the sources.
\<close>

datatype call = AtcAck u32 | ApplicationWrite "byte list" | ApplicationClose

text \<open>After one pass through a pump's loop body the pump loops again or returns.\<close>

datatype loop_ctl = Continue | Return

text \<open>
  The result of \<open>s.application.Read(buf)\<close>: the bytes read with a nil error, \<open>io.EOF\<close>,
  or another error. With a non-nil error the sources never look at the bytes.
\<close>

datatype read_result = ReadBytes "byte list" | ReadEOF | ReadError

section \<open>The socket with handshake and run loop (service/ports/socket/socket.go, first file)\<close>

type_synonym ip = "byte list"

record Addr =
  Host :: string
  Port :: int

record ('c, 'n) Config =
  LocalAddr :: "Addr option"
  RemoteAddr :: "Addr option"
  Application :: "'c option"
  Network :: "'n option"

record ('c, 'pf) Socket =
  lAddr :: Addr
  rAddr :: Addr
  txBytes :: u32
  rxBytes :: u32
  application :: 'c
  packetizer :: 'pf
  inbound :: "packet chan"
  shutdown :: "bool chan"

text \<open>
  \<open>New\<close>. \<open>net.ParseIP\<close> (Go's library; \<open>None\<close> is its nil result) and
  \<open>factory.DefaultPacketFactory\<close> (a package outside the sources) are parameters. The
  factory's last argument in the source is the closure \<open>toNetwork\<close>, which is built
  from the two hosts and \<open>c.Network\<close>; the parameter receives the network instead. The
  four checks are in the source's order, and the second reads \<open>c.LocalAddr.Host\<close>, as
  line 63 does.
\<close>

definition New ::
  "(string \<Rightarrow> ip option) \<Rightarrow> (ip option \<Rightarrow> ip option \<Rightarrow> u16 \<Rightarrow> u16 \<Rightarrow> 'n \<Rightarrow> 'pf)
     \<Rightarrow> ('c, 'n) Config \<Rightarrow> error + ('c, 'pf) Socket" where
  "New ParseIP DefaultPacketFactory c =
     (case LocalAddr c of
        None \<Rightarrow> Inl InvalidLocalAddress
      | Some l \<Rightarrow>
          if ParseIP (Host l) = None then Inl InvalidLocalAddress
          else (case RemoteAddr c of
             None \<Rightarrow> Inl RemoteAddressNil
           | Some r \<Rightarrow>
               if ParseIP (Host l) = None then Inl RemoteAddressNil
               else (case Application c of
                  None \<Rightarrow> Inl ApplicationNil
                | Some app \<Rightarrow>
                    (case Network c of
                       None \<Rightarrow> Inl NetworkNil
                     | Some nw \<Rightarrow>
                         Inr \<lparr>lAddr = l, rAddr = r, txBytes = 0, rxBytes = 0,
                              application = app,
                              packetizer =
                                DefaultPacketFactory (ParseIP (Host l)) (ParseIP (Host r))
                                  (word_of_int (Port l)) (word_of_int (Port r)) nw,
                              inbound = make_chan 100,
                              shutdown = make_chan 1\<rparr>))))"

text \<open>\<open>Close\<close>: send on the shutdown channel, close it, close the application connection.\<close>

definition Close :: "('c, 'pf) Socket \<Rightarrow> call list \<times> ('c, 'pf) Socket res" where
  "Close s =
     (case chan_send True (shutdown s) of
        Panic m \<Rightarrow> ([], Panic m)
      | Blocked \<Rightarrow> ([], Blocked)
      | Ok c \<Rightarrow>
          (case chan_close c of
             Panic m \<Rightarrow> ([], Panic m)
           | Blocked \<Rightarrow> ([], Blocked)
           | Ok c' \<Rightarrow> ([ApplicationClose], Ok (s\<lparr>shutdown := c'\<rparr>))))"

text \<open>
  \<open>WaitForControlPacket\<close>. Both branches of the \<open>select\<close> return, so the loop body runs
  once. Which branch runs is decided by the Go runtime, from two things the function
  does not choose and that are therefore inputs here: \<open>elapsed\<close>, the nanoseconds
  between the call of \<open>time.After(timeout)\<close> and the moment the \<open>select\<close> commits, and
  \<open>pick\<close>, the runtime's random choice when both branches are ready. The receive branch
  is ready when the inbound channel holds a packet or is closed; the timer branch is
  ready once \<open>timeout\<close> (a \<open>time.Duration\<close>, which may be zero or negative) has elapsed.
  With neither ready the \<open>select\<close> is still waiting (\<open>Blocked\<close>). The buffer of
  \<open>inbound\<close> is what the channel holds at that moment. The receive branch takes the
  oldest packet off the channel; a receive from the closed and empty channel yields nil,
  and the call \<open>p.IsSYN()\<close> on it faults. The result is the returned error (\<open>None\<close> for
  \<open>nil\<close>) and the socket after the call.
\<close>

datatype wait_select = PickInbound | PickTimer

definition WaitForControlPacket ::
  "bool \<Rightarrow> bool \<Rightarrow> bool \<Rightarrow> bool \<Rightarrow> int \<Rightarrow> int \<Rightarrow> wait_select \<Rightarrow> ('c, 'pf) Socket
     \<Rightarrow> (error option \<times> ('c, 'pf) Socket) res" where
  "WaitForControlPacket syn ack fin err timeout elapsed pick s =
     (case chan_recv (inbound s) of
        NotReady \<Rightarrow> if timeout \<le> elapsed then Ok (Some OperationTimedOut, s) else Blocked
      | ZeroValue \<Rightarrow>
          if timeout \<le> elapsed \<and> pick = PickTimer then Ok (Some OperationTimedOut, s)
          else Panic ''runtime error: invalid memory address or nil pointer dereference''
      | Received p c \<Rightarrow>
          if timeout \<le> elapsed \<and> pick = PickTimer then Ok (Some OperationTimedOut, s)
          else
            (let s' = s\<lparr>inbound := c\<rparr> in
             if syn \<noteq> IsSYN p then Ok (Some (FlagMismatch SYN syn (IsSYN p)), s')
             else if ack \<noteq> IsACK p then Ok (Some (FlagMismatch ACK ack (IsACK p)), s')
             else if fin \<noteq> IsFIN p then Ok (Some (FlagMismatch FIN fin (IsFIN p)), s')
             else if err \<noteq> IsERR p then Ok (Some (FlagMismatch ERR err (IsERR p)), s')
             else Ok (None, s')))"

text \<open>
  \<open>SendControlPacket\<close> hands its arguments to the packetizer, whose method (outside the
  sources) is a parameter acting on the packetizer.
\<close>

definition SendControlPacket ::
  "(bool \<Rightarrow> bool \<Rightarrow> bool \<Rightarrow> bool \<Rightarrow> 'pf \<Rightarrow> string option \<times> 'pf)
     \<Rightarrow> bool \<Rightarrow> bool \<Rightarrow> bool \<Rightarrow> bool \<Rightarrow> ('c, 'pf) Socket \<Rightarrow> string option \<times> ('c, 'pf) Socket" where
  "SendControlPacket pfSendControlPacket syn ack fin err s =
     (case pfSendControlPacket syn ack fin err (packetizer s) of
        (e, pf') \<Rightarrow> (e, s\<lparr>packetizer := pf'\<rparr>))"

definition Deliver :: "packet \<Rightarrow> ('c, 'pf) Socket \<Rightarrow> ('c, 'pf) Socket res" where
  "Deliver p s =
     (case chan_send p (inbound s) of
        Panic m \<Rightarrow> Panic m
      | Blocked \<Rightarrow> Blocked
      | Ok c \<Rightarrow> Ok (s\<lparr>inbound := c\<rparr>))"

text \<open>
  The receive pump. Which branch of its \<open>select\<close> runs is decided outside the pump (by
  \<open>Run\<close>, which fills and closes \<open>done\<close>, and by the scheduler when both are ready), so
  it is the input of one pass through the loop body.
\<close>

datatype rx_select = RxDone | RxInbound

definition receive_step ::
  "rx_select \<Rightarrow> ('c, 'pf) Socket \<Rightarrow> call list \<times> (loop_ctl \<times> ('c, 'pf) Socket) res" where
  "receive_step sel s =
     (case sel of
        RxDone \<Rightarrow>
          (case chan_close (inbound s) of
             Panic m \<Rightarrow> ([], Panic m)
           | Blocked \<Rightarrow> ([], Blocked)
           | Ok c \<Rightarrow> ([], Ok (Return, s\<lparr>inbound := c\<rparr>)))
      | RxInbound \<Rightarrow>
          (case chan_recv (inbound s) of
             NotReady \<Rightarrow> ([], Blocked)
           | ZeroValue \<Rightarrow> ([], Panic ''runtime error: invalid memory address or nil pointer dereference'')
           | Received p c \<Rightarrow>
               ([ApplicationWrite (Payload p)],
                Ok (Continue, s\<lparr>inbound := c, rxBytes := rxBytes s + ucast (Length p)\<rparr>))))"

text \<open>
  The pump's \<open>for\<close> loop over a schedule of \<open>select\<close> outcomes. At the end of the
  schedule the pump is still in its loop (\<open>Continue\<close>).
\<close>

fun receive ::
  "rx_select list \<Rightarrow> ('c, 'pf) Socket \<Rightarrow> call list \<times> (loop_ctl \<times> ('c, 'pf) Socket) res" where
  "receive [] s = ([], Ok (Continue, s))"
| "receive (sel # sels) s =
     (case receive_step sel s of
        (tr, Ok (Continue, s')) \<Rightarrow> (case receive sels s' of (tr', r) \<Rightarrow> (tr @ tr', r))
      | (tr, r) \<Rightarrow> (tr, r))"

text \<open>
  The transmit pump. \<open>TxDone\<close> is the \<open>done\<close> branch; \<open>TxDefault r\<close> is the default
  branch with \<open>r\<close> what \<open>s.application.Read(buf)\<close> returned (at most the 1500 bytes of
  \<open>buf\<close>). \<open>PackAndForwardMessage\<close> belongs to the packetizer (outside the sources): a
  parameter that acts on the packetizer and returns the count \<open>n\<close> (a Go \<open>int\<close>) and
  the error. \<open>uint32(n)\<close> keeps the low 32 bits.
\<close>

datatype tx_select = TxDone | TxDefault read_result

definition transmit_step ::
  "(byte list \<Rightarrow> 'pf \<Rightarrow> (int \<times> string option) \<times> 'pf) \<Rightarrow> tx_select \<Rightarrow> ('c, 'pf) Socket
     \<Rightarrow> (loop_ctl \<times> ('c, 'pf) Socket) res" where
  "transmit_step PackAndForwardMessage sel s =
     (case sel of
        TxDone \<Rightarrow> Ok (Return, s)
      | TxDefault ReadError \<Rightarrow> Ok (Continue, s)
      | TxDefault ReadEOF \<Rightarrow>
          (case chan_send True (shutdown s) of
             Panic m \<Rightarrow> Panic m
           | Blocked \<Rightarrow> Blocked
           | Ok c \<Rightarrow> Ok (Return, s\<lparr>shutdown := c\<rparr>))
      | TxDefault (ReadBytes b) \<Rightarrow>
          (case PackAndForwardMessage (take 1500 b) (packetizer s) of
             ((n, Some e), pf') \<Rightarrow> Ok (Return, s\<lparr>packetizer := pf'\<rparr>)
           | ((n, None), pf') \<Rightarrow>
               Ok (Continue, s\<lparr>packetizer := pf', txBytes := txBytes s + word_of_int n\<rparr>)))"

fun transmit ::
  "(byte list \<Rightarrow> 'pf \<Rightarrow> (int \<times> string option) \<times> 'pf) \<Rightarrow> tx_select list \<Rightarrow> ('c, 'pf) Socket
     \<Rightarrow> (loop_ctl \<times> ('c, 'pf) Socket) res" where
  "transmit pfm [] s = Ok (Continue, s)"
| "transmit pfm (sel # sels) s =
     (case transmit_step pfm sel s of
        Ok (Continue, s') \<Rightarrow> transmit pfm sels s'
      | r \<Rightarrow> r)"

section \<open>The socket that owns a controller (service/ports/socket/socket.go, second file)\<close>

text \<open>
  The second declaration of \<open>Socket\<close> in the sources; its names carry the suffix 2
  where they would clash with the first. \<open>In\<close> is an unbuffered channel that nothing
  closes: a receive on it takes the packet straight from the sender, so the packet is
  the input of one pass through the receiver's loop body. The address pointers are
  taken to be non-nil.
\<close>

record ('c, 'pf, 'w) Socket2 =
  lAddr2 :: Addr
  rAddr2 :: Addr
  txBytes2 :: u32
  rxBytes2 :: u32
  atc2 :: "'w AirTrafficCtrl"
  pf2 :: 'pf
  In2 :: "packet chan"
  application2 :: 'c




text \<open>One pass through the loop body of \<open>receiver\<close>, for the packet received from \<open>In\<close>.\<close>

definition receiver_step ::
  "packet \<Rightarrow> ('c, 'pf, 'w) Socket2 \<Rightarrow> call list \<times> ('c, 'pf, 'w) Socket2" where
  "receiver_step p s =
     ([AtcAck (AckNo p), ApplicationWrite (Payload p)],
      s\<lparr>atc2 := Ack (AckNo p) (atc2 s), rxBytes2 := rxBytes2 s + ucast (Length p)\<rparr>)"

text \<open>The loop of \<open>receiver\<close> over the packets that arrive on \<open>In\<close>, in order.\<close>

fun receiver ::
  "packet list \<Rightarrow> ('c, 'pf, 'w) Socket2 \<Rightarrow> call list \<times> ('c, 'pf, 'w) Socket2" where
  "receiver [] s = ([], s)"
| "receiver (p # ps) s =
     (case receiver_step p s of
        (tr, s') \<Rightarrow> (case receiver ps s' of (tr', s'') \<Rightarrow> (tr @ tr', s'')))"


section \<open>Vocabulary of the properties and example values\<close>

text \<open>The value a call of \<open>WaitForControlPacket\<close> asks for a flag, and the one a packet carries.\<close>

definition requested :: "bool \<Rightarrow> bool \<Rightarrow> bool \<Rightarrow> bool \<Rightarrow> flag \<Rightarrow> bool" where
  "requested syn ack fin err f = (case f of SYN \<Rightarrow> syn | ACK \<Rightarrow> ack | FIN \<Rightarrow> fin | ERR \<Rightarrow> err)"

definition carried :: "packet \<Rightarrow> flag \<Rightarrow> bool" where
  "carried p f = (case f of SYN \<Rightarrow> IsSYN p | ACK \<Rightarrow> IsACK p | FIN \<Rightarrow> IsFIN p | ERR \<Rightarrow> IsERR p)"

text \<open>Concrete inputs for the evaluations below.\<close>

definition control_packet :: "bool \<Rightarrow> bool \<Rightarrow> bool \<Rightarrow> bool \<Rightarrow> packet" where
  "control_packet syn ack fin err =
     \<lparr>SeqNo = 0, AckNo = 0, Length = 0, Payload = [],
      IsSYN = syn, IsACK = ack, IsFIN = fin, IsERR = err\<rparr>"

definition example_socket :: "u32 \<Rightarrow> u32 \<Rightarrow> packet list \<Rightarrow> (unit, unit) Socket" where
  "example_socket tx rx ps =
     \<lparr>lAddr = \<lparr>Host = ''10.0.0.1'', Port = 4000\<rparr>, rAddr = \<lparr>Host = ''10.0.0.2'', Port = 5000\<rparr>,
      txBytes = tx, rxBytes = rx, application = (), packetizer = (),
      inbound = \<lparr>buf = ps, cap = 100, closed = False\<rparr>,
      shutdown = \<lparr>buf = [], cap = 1, closed = False\<rparr>\<rparr>"

definition example_socket2 :: "(u32 \<rightharpoonup> packet) \<Rightarrow> u32 \<Rightarrow> (unit, unit, packet list) Socket2" where
  "example_socket2 m rx =
     \<lparr>lAddr2 = \<lparr>Host = ''10.0.0.1'', Port = 4000\<rparr>, rAddr2 = \<lparr>Host = ''10.0.0.2'', Port = 5000\<rparr>,
      txBytes2 = 0, rxBytes2 = rx,
      atc2 = \<lparr>ackWait = defaultAckWaitTime, fwFunc = wire_ok, inFlight = m\<rparr>,
      pf2 = (), In2 = \<lparr>buf = [], cap = 0, closed = False\<rparr>, application2 = ()\<rparr>"

definition example_ParseIP :: "string \<Rightarrow> ip option" where
  "example_ParseIP h =
     (if h = ''10.0.0.1'' then Some [10, 0, 0, 1]
      else if h = ''10.0.0.2'' then Some [10, 0, 0, 2]
      else None)"

definition factory_args ::
  "ip option \<Rightarrow> ip option \<Rightarrow> u16 \<Rightarrow> u16 \<Rightarrow> unit \<Rightarrow> ip option \<times> ip option \<times> u16 \<times> u16" where
  "factory_args src dst sport dport nw = (src, dst, sport, dport)"

definition no_factory :: "ip option \<Rightarrow> ip option \<Rightarrow> u16 \<Rightarrow> u16 \<Rightarrow> unit \<Rightarrow> unit" where
  "no_factory src dst sport dport nw = ()"

definition example_config :: "string \<Rightarrow> (unit, unit) Config" where
  "example_config remote_host =
     \<lparr>LocalAddr = Some \<lparr>Host = ''10.0.0.1'', Port = 4000\<rparr>,
      RemoteAddr = Some \<lparr>Host = remote_host, Port = 5000\<rparr>,
      Application = Some (), Network = Some ()\<rparr>"






text \<open>A packetizer method for the examples: it consumes the whole chunk and succeeds.\<close>

definition consume_all :: "byte list \<Rightarrow> unit \<Rightarrow> (int \<times> string option) \<times> unit" where
  "consume_all b pf = ((int (length b), None), ())"

section \<open>The controller: what Send and Ack do to the in-flight map and to the outside\<close>

lemma Send_controller:
  "fst (snd (Send pck (atc, w))) = atc\<lparr>inFlight := (inFlight atc)(SeqNo pck \<mapsto> pck)\<rparr>"
  by (simp add: Send_def Let_def split: prod.splits option.splits)

lemma Send_outside:
  "snd (snd (Send pck (atc, w))) = snd (fwFunc atc pck w)"
  by (simp add: Send_def Let_def split: prod.splits option.splits)


lemma inFlight_Ack: "inFlight (Ack m b) n = (if n = m then None else inFlight b n)"
  by (simp add: Ack_def)

lemma Ack_absent: "inFlight atc n = None \<Longrightarrow> Ack n atc = atc"
  by (simp add: Ack_def fun_upd_idem)

lemma run_wire_ok:
  "fwFunc atc = wire_ok \<Longrightarrow> snd (run cs (atc, w)) = w @ sends cs"
proof (induction cs arbitrary: atc w)
  case Nil
  show ?case by simp
next
  case (Cons c cs)
  show ?case
  proof (cases c)
    case (CallSend pck)
    obtain e atc' w' where S: "Send pck (atc, w) = (e, atc', w')"
      by (cases "Send pck (atc, w)") auto
    have a: "atc' = atc\<lparr>inFlight := (inFlight atc)(SeqNo pck \<mapsto> pck)\<rparr>"
      using Send_controller [of pck atc w] S by simp
    have b: "w' = w @ [pck]"
      using Send_outside [of pck atc w] S Cons.prems by (simp add: wire_ok_def)
    have "fwFunc atc' = wire_ok" using a Cons.prems by simp
    then have "snd (run cs (atc', w')) = w' @ sends cs" by (rule Cons.IH)
    then show ?thesis using CallSend S b by simp
  next
    case (CallAck num)
    have "fwFunc (Ack num atc) = wire_ok" using Cons.prems by (simp add: Ack_def)
    then have "snd (run cs (Ack num atc, w)) = w @ sends cs" by (rule Cons.IH)
    then show ?thesis using CallAck by simp
  qed
qed

lemma run_absent:
  "inFlight atc n = None \<Longrightarrow> n \<notin> SeqNo ` set (sends cs)
     \<Longrightarrow> inFlight (fst (run cs (atc, w))) n = None"
proof (induction cs arbitrary: atc w)
  case Nil
  then show ?case by simp
next
  case (Cons c cs)
  show ?case
  proof (cases c)
    case (CallSend pck)
    obtain e atc' w' where S: "Send pck (atc, w) = (e, atc', w')"
      by (cases "Send pck (atc, w)") auto
    have a: "atc' = atc\<lparr>inFlight := (inFlight atc)(SeqNo pck \<mapsto> pck)\<rparr>"
      using Send_controller [of pck atc w] S by simp
    have "n \<noteq> SeqNo pck" using Cons.prems(2) CallSend by auto
    then have "inFlight atc' n = None" using a Cons.prems(1) by simp
    moreover have "n \<notin> SeqNo ` set (sends cs)" using Cons.prems(2) CallSend by auto
    ultimately have "inFlight (fst (run cs (atc', w'))) n = None" by (rule Cons.IH)
    then show ?thesis using CallSend S by simp
  next
    case (CallAck num)
    have "inFlight (Ack num atc) n = None" using Cons.prems(1) by (simp add: inFlight_Ack)
    moreover have "n \<notin> SeqNo ` set (sends cs)" using Cons.prems(2) CallAck by auto
    ultimately have "inFlight (fst (run cs (Ack num atc, w))) n = None" by (rule Cons.IH)
    then show ?thesis using CallAck by simp
  qed
qed

text \<open>
  C1. The claim: when the transmit callback returns an error, \<open>Send\<close> returns a send error
  and the in-flight map afterwards has no entry for the packet's sequence number. The
  code returns the error but never removes the registration: after every \<open>Send\<close>,
  whatever the callback returned, the map holds the packet under its sequence number.
  The second part evaluates \<open>Send\<close> on a fresh controller whose callback fails: the
  error comes back and sequence number 5 stays registered.
\<close>

theorem Send_keeps_registration_on_failure:
  "inFlight (fst (snd (Send pck (atc, w)))) (SeqNo pck) = Some pck
   \<and> Send (data_packet 5 0 [1, 2, 3]) (NewAirTrafficCtrl wire_down, []) =
       (Some (CouldNotSendPacket ''network is unreachable''),
        \<lparr>ackWait = defaultAckWaitTime, fwFunc = wire_down,
         inFlight = [5 \<mapsto> data_packet 5 0 [1, 2, 3]]\<rparr>, [])"
proof
  show "inFlight (fst (snd (Send pck (atc, w)))) (SeqNo pck) = Some pck"
    by (simp add: Send_controller)
  show "Send (data_packet 5 0 [1, 2, 3]) (NewAirTrafficCtrl wire_down, []) =
       (Some (CouldNotSendPacket ''network is unreachable''),
        \<lparr>ackWait = defaultAckWaitTime, fwFunc = wire_down,
         inFlight = [5 \<mapsto> data_packet 5 0 [1, 2, 3]]\<rparr>, [])"
    by (simp add: Send_def NewAirTrafficCtrl_def wire_down_def data_packet_def)
qed

text \<open>
  C2. The claim: every successful \<open>Send\<close> arms a timer of the ack-wait duration, and each
  time it fires with the entry still present the packet is sent again. The controller
  has no timer: its state is the record above, \<open>ackWait\<close> is stored and never read, and
  its only operations are \<open>Send\<close> and \<open>Ack\<close>. Over a wire that records every
  transmission, any sequence of calls puts on the wire exactly the packets handed to
  \<open>Send\<close>, once each and in order, however long their entries stay in flight. The second
  part evaluates one such sequence: packet 5 is sent, another sequence number is acked,
  packet 5 is still in flight and has been transmitted once.
\<close>

theorem controller_transmits_once_per_Send:
  "snd (run cs (NewAirTrafficCtrl wire_ok, w)) = w @ sends cs
   \<and> run [CallSend (data_packet 5 0 [1, 2, 3]), CallAck 6] (NewAirTrafficCtrl wire_ok, []) =
       (\<lparr>ackWait = defaultAckWaitTime, fwFunc = wire_ok,
         inFlight = [5 \<mapsto> data_packet 5 0 [1, 2, 3]]\<rparr>,
        [data_packet 5 0 [1, 2, 3]])"
proof
  show "snd (run cs (NewAirTrafficCtrl wire_ok, w)) = w @ sends cs"
    by (rule run_wire_ok) (simp add: NewAirTrafficCtrl_def)
  show "run [CallSend (data_packet 5 0 [1, 2, 3]), CallAck 6] (NewAirTrafficCtrl wire_ok, []) =
       (\<lparr>ackWait = defaultAckWaitTime, fwFunc = wire_ok,
         inFlight = [5 \<mapsto> data_packet 5 0 [1, 2, 3]]\<rparr>,
        [data_packet 5 0 [1, 2, 3]])"
    by (simp add: Send_def Ack_def NewAirTrafficCtrl_def wire_ok_def data_packet_def)
qed

text \<open>
  C3. \<open>Send\<close> of a packet followed by \<open>Ack\<close> of its sequence number leaves the in-flight
  map with no entry for it. \<open>Ack n\<close> on a controller with no entry for \<open>n\<close> returns the
  controller unchanged; that is the case after any sequence of calls on a fresh
  controller in which no packet with sequence number \<open>n\<close> was sent, and after an earlier
  \<open>Ack n\<close>. \<open>Ack\<close> is a total function with no error result.
\<close>

theorem Send_Ack_removes_entry:
  "inFlight (Ack (SeqNo pck) (fst (snd (Send pck (atc, w))))) (SeqNo pck) = None
   \<and> (inFlight atc n = None \<longrightarrow> Ack n atc = atc)
   \<and> (n \<notin> SeqNo ` set (sends cs) \<longrightarrow>
        Ack n (fst (run cs (NewAirTrafficCtrl f, w))) = fst (run cs (NewAirTrafficCtrl f, w)))
   \<and> Ack n (Ack n atc) = Ack n atc"
proof -
  have 1: "inFlight (Ack (SeqNo pck) (fst (snd (Send pck (atc, w))))) (SeqNo pck) = None"
    by (simp add: inFlight_Ack)
  have 2: "inFlight atc n = None \<longrightarrow> Ack n atc = atc"
    by (simp add: Ack_absent)
  have 3: "n \<notin> SeqNo ` set (sends cs) \<longrightarrow>
        Ack n (fst (run cs (NewAirTrafficCtrl f, w))) = fst (run cs (NewAirTrafficCtrl f, w))"
  proof
    assume h: "n \<notin> SeqNo ` set (sends cs)"
    have "inFlight (NewAirTrafficCtrl f) n = None" by (simp add: NewAirTrafficCtrl_def)
    then have "inFlight (fst (run cs (NewAirTrafficCtrl f, w))) n = None"
      using h by (rule run_absent)
    then show "Ack n (fst (run cs (NewAirTrafficCtrl f, w))) = fst (run cs (NewAirTrafficCtrl f, w))"
      by (rule Ack_absent)
  qed
  have 4: "Ack n (Ack n atc) = Ack n atc" by (simp add: Ack_def)
  from 1 2 3 4 show ?thesis by blast
qed

theorem Send_Ack_removes_entry_witness:
  "inFlight (NewAirTrafficCtrl wire_ok) 7 = None
   \<and> Ack 7 (NewAirTrafficCtrl wire_ok) = NewAirTrafficCtrl wire_ok
   \<and> 7 \<notin> SeqNo ` set (sends [CallSend (data_packet 5 0 [1, 2, 3]), CallAck 5])
   \<and> Ack 7 (fst (run [CallSend (data_packet 5 0 [1, 2, 3]), CallAck 5]
                    (NewAirTrafficCtrl wire_ok, []))) =
       fst (run [CallSend (data_packet 5 0 [1, 2, 3]), CallAck 5] (NewAirTrafficCtrl wire_ok, []))
   \<and> inFlight (Ack 5 (fst (snd (Send (data_packet 5 0 [1, 2, 3])
                                  (NewAirTrafficCtrl wire_ok, []))))) 5 = None"
proof -
  have a: "inFlight (NewAirTrafficCtrl wire_ok) 7 = None"
    by (simp add: NewAirTrafficCtrl_def)
  have b: "7 \<notin> SeqNo ` set (sends [CallSend (data_packet 5 0 [1, 2, 3]), CallAck 5])"
    by (simp add: data_packet_def)
  note t = Send_Ack_removes_entry
    [of "data_packet 5 0 [1, 2, 3]" "NewAirTrafficCtrl wire_ok" "[]" 7
        "[CallSend (data_packet 5 0 [1, 2, 3]), CallAck 5]" wire_ok]
  have c: "SeqNo (data_packet 5 0 [1, 2, 3]) = 5" by (simp add: data_packet_def)
  from t a b c show ?thesis by simp
qed

text \<open>
  C9. For sequence numbers \<open>m \<noteq> n\<close>, \<open>Ack n\<close> and \<open>Send\<close> of a packet with sequence number
  \<open>n\<close> leave the entry for \<open>m\<close> (absent, or its stored packet) as it was.
\<close>

theorem controller_touches_one_entry:
  "m \<noteq> n \<Longrightarrow>
     inFlight (Ack n atc) m = inFlight atc m
     \<and> inFlight (fst (snd (Send (pck\<lparr>SeqNo := n\<rparr>) (atc, w)))) m = inFlight atc m"
  by (simp add: inFlight_Ack Send_controller)

theorem controller_touches_one_entry_witness:
  "(5 :: u32) \<noteq> 6
   \<and> inFlight (Ack 6 (fst (snd (Send (data_packet 5 0 [1, 2, 3])
                                  (NewAirTrafficCtrl wire_ok, []))))) 5
       = Some (data_packet 5 0 [1, 2, 3])
   \<and> inFlight (fst (snd (Send (data_packet 6 0 [4])
         (fst (snd (Send (data_packet 5 0 [1, 2, 3]) (NewAirTrafficCtrl wire_ok, []))), [])))) 5
       = Some (data_packet 5 0 [1, 2, 3])"
proof -
  have ne: "(5 :: u32) \<noteq> 6" by simp
  have s: "inFlight (fst (snd (Send (data_packet 5 0 [1, 2, 3])
             (NewAirTrafficCtrl wire_ok, [])))) 5 = Some (data_packet 5 0 [1, 2, 3])"
    by (simp add: Send_controller data_packet_def)
  have p: "(data_packet 6 0 [4])\<lparr>SeqNo := 6\<rparr> = data_packet 6 0 [4]"
    by (simp add: data_packet_def)
  note t = controller_touches_one_entry
    [where m = 5 and n = 6
       and atc = "fst (snd (Send (data_packet 5 0 [1, 2, 3]) (NewAirTrafficCtrl wire_ok, [])))"
       and pck = "data_packet 6 0 [4]" and w = "[]", OF ne]
  from t s p ne show ?thesis by simp
qed

section \<open>The sockets: construction, control packets, close\<close>

lemma New_Inr:
  assumes "New ParseIP dpf c = Inr s"
  shows "shutdown s = make_chan 1 \<and> inbound s = make_chan 100 \<and> txBytes s = 0 \<and> rxBytes s = 0"
  using assms by (auto simp: New_def split: option.splits if_splits)

lemma WaitForControlPacket_received:
  assumes "buf (inbound s) = p # rest" and "elapsed < timeout \<or> pick = PickInbound"
  shows "WaitForControlPacket syn ack fin err timeout elapsed pick s =
     Ok (if syn \<noteq> IsSYN p then Some (FlagMismatch SYN syn (IsSYN p))
         else if ack \<noteq> IsACK p then Some (FlagMismatch ACK ack (IsACK p))
         else if fin \<noteq> IsFIN p then Some (FlagMismatch FIN fin (IsFIN p))
         else if err \<noteq> IsERR p then Some (FlagMismatch ERR err (IsERR p))
         else None, s\<lparr>inbound := (inbound s)\<lparr>buf := rest\<rparr>\<rparr>)"
proof -
  have "\<not> (timeout \<le> elapsed \<and> pick = PickTimer)" using assms(2) by auto
  then show ?thesis
    using assms(1) by (simp add: WaitForControlPacket_def chan_recv_def Let_def)
qed

lemma WaitForControlPacket_timer:
  assumes "timeout \<le> elapsed"
    and "pick = PickTimer \<or> (buf (inbound t) = [] \<and> \<not> closed (inbound t))"
  shows "WaitForControlPacket syn ack fin err timeout elapsed pick t = Ok (Some OperationTimedOut, t)"
  using assms
  by (auto simp: WaitForControlPacket_def chan_recv_def split: list.splits)


lemma Close_open:
  assumes "\<not> closed (shutdown s)" "length (buf (shutdown s)) < cap (shutdown s)"
  shows "Close s = ([ApplicationClose],
           Ok (s\<lparr>shutdown := (shutdown s)\<lparr>buf := buf (shutdown s) @ [True], closed := True\<rparr>\<rparr>))"
  using assms by (simp add: Close_def chan_send_def chan_close_def)

lemma Close_closed:
  assumes "closed (shutdown s)"
  shows "Close s = ([], Panic ''send on closed channel'')"
  using assms by (simp add: Close_def chan_send_def)

lemma Close_Ok:
  assumes "Close s = (tr, Ok s')"
  shows "\<not> closed (shutdown s) \<and> length (buf (shutdown s)) < cap (shutdown s)"
  using assms by (auto simp: Close_def chan_send_def chan_close_def split: if_splits)







text \<open>
  C6, as stated, fails in two ways. With the timer already expired (here a timeout of
  0) and a packet with the requested flags at the head of the queue, the runtime may run
  the timer branch: the call returns the timeout error and the packet stays queued. And
  on the inbound channel that the receive pump has closed on its way out, no packet
  ever arrives, yet the call does not time out: the receive yields nil at once and the
  call faults.
\<close>

theorem WaitForControlPacket_timer_race_and_closed_queue:
  "WaitForControlPacket True True False False 0 0 PickTimer
       (example_socket 0 0 [control_packet True True False False])
     = Ok (Some OperationTimedOut, example_socket 0 0 [control_packet True True False False])
   \<and> receive_step RxDone (example_socket 0 0 []) =
       ([], Ok (Return, (example_socket 0 0 [])\<lparr>inbound := \<lparr>buf = [], cap = 100, closed = True\<rparr>\<rparr>))
   \<and> WaitForControlPacket True True False False 1000000000 0 PickInbound
       ((example_socket 0 0 [])\<lparr>inbound := \<lparr>buf = [], cap = 100, closed = True\<rparr>\<rparr>)
     = Panic ''runtime error: invalid memory address or nil pointer dereference''"
  by (simp add: WaitForControlPacket_def receive_step_def chan_recv_def chan_close_def
      example_socket_def control_packet_def)

text \<open>
  C6, amended. For every requested flag combination and every timeout: when the receive
  branch of the \<open>select\<close> runs on a packet at the head of the inbound queue (the timer
  has not expired, or the runtime picked the receive branch), \<open>WaitForControlPacket\<close>
  returns success exactly when the packet's four flags equal the requested ones, and
  otherwise a flag-mismatch error for a flag whose requested and carried values differ;
  in both cases the packet is taken off the queue. When the timer branch runs (the
  timeout has elapsed, and the runtime picked the timer or the queue is empty and
  open) it returns the timeout error and leaves the socket as it was. With a packet
  queued and the timer expired either branch may run.
\<close>

theorem WaitForControlPacket_outcomes:
  "(buf (inbound s) = p # rest \<and> (elapsed < timeout \<or> pick = PickInbound) \<longrightarrow>
      ((\<exists>s'. WaitForControlPacket syn ack fin err timeout elapsed pick s = Ok (None, s'))
         \<longleftrightarrow> (IsSYN p = syn \<and> IsACK p = ack \<and> IsFIN p = fin \<and> IsERR p = err))
      \<and> (IsSYN p = syn \<and> IsACK p = ack \<and> IsFIN p = fin \<and> IsERR p = err \<longrightarrow>
           WaitForControlPacket syn ack fin err timeout elapsed pick s =
             Ok (None, s\<lparr>inbound := (inbound s)\<lparr>buf := rest\<rparr>\<rparr>))
      \<and> (\<not> (IsSYN p = syn \<and> IsACK p = ack \<and> IsFIN p = fin \<and> IsERR p = err) \<longrightarrow>
           (\<exists>f. WaitForControlPacket syn ack fin err timeout elapsed pick s =
                  Ok (Some (FlagMismatch f (requested syn ack fin err f) (carried p f)),
                      s\<lparr>inbound := (inbound s)\<lparr>buf := rest\<rparr>\<rparr>)
                \<and> requested syn ack fin err f \<noteq> carried p f)))
   \<and> (timeout \<le> elapsed2
        \<and> (pick2 = PickTimer \<or> (buf (inbound t) = [] \<and> \<not> closed (inbound t))) \<longrightarrow>
        WaitForControlPacket syn ack fin err timeout elapsed2 pick2 t =
          Ok (Some OperationTimedOut, t))"
proof (intro conjI impI)
  assume h: "buf (inbound s) = p # rest \<and> (elapsed < timeout \<or> pick = PickInbound)"
  note r = WaitForControlPacket_received
    [OF h [THEN conjunct1] h [THEN conjunct2], of syn ack fin err]
  show "(\<exists>s'. WaitForControlPacket syn ack fin err timeout elapsed pick s = Ok (None, s'))
         \<longleftrightarrow> (IsSYN p = syn \<and> IsACK p = ack \<and> IsFIN p = fin \<and> IsERR p = err)"
    unfolding r by auto
  show "WaitForControlPacket syn ack fin err timeout elapsed pick s =
          Ok (None, s\<lparr>inbound := (inbound s)\<lparr>buf := rest\<rparr>\<rparr>)"
    if "IsSYN p = syn \<and> IsACK p = ack \<and> IsFIN p = fin \<and> IsERR p = err"
    unfolding r using that by auto
  show "\<exists>f. WaitForControlPacket syn ack fin err timeout elapsed pick s =
                  Ok (Some (FlagMismatch f (requested syn ack fin err f) (carried p f)),
                      s\<lparr>inbound := (inbound s)\<lparr>buf := rest\<rparr>\<rparr>)
                \<and> requested syn ack fin err f \<noteq> carried p f"
    if n: "\<not> (IsSYN p = syn \<and> IsACK p = ack \<and> IsFIN p = fin \<and> IsERR p = err)"
  proof -
    consider "syn \<noteq> IsSYN p" | "syn = IsSYN p" "ack \<noteq> IsACK p"
      | "syn = IsSYN p" "ack = IsACK p" "fin \<noteq> IsFIN p"
      | "syn = IsSYN p" "ack = IsACK p" "fin = IsFIN p" "err \<noteq> IsERR p"
      using n by blast
    then show ?thesis
    proof cases
      case 1
      then show ?thesis unfolding r by (intro exI [of _ SYN]) (simp add: requested_def carried_def)
    next
      case 2
      then show ?thesis unfolding r by (intro exI [of _ ACK]) (simp add: requested_def carried_def)
    next
      case 3
      then show ?thesis unfolding r by (intro exI [of _ FIN]) (simp add: requested_def carried_def)
    next
      case 4
      then show ?thesis unfolding r by (intro exI [of _ ERR]) (simp add: requested_def carried_def)
    qed
  qed
next
  assume h: "timeout \<le> elapsed2
        \<and> (pick2 = PickTimer \<or> (buf (inbound t) = [] \<and> \<not> closed (inbound t)))"
  show "WaitForControlPacket syn ack fin err timeout elapsed2 pick2 t =
          Ok (Some OperationTimedOut, t)"
    by (rule WaitForControlPacket_timer [OF h [THEN conjunct1] h [THEN conjunct2]])
qed

theorem WaitForControlPacket_outcomes_witness:
  "buf (inbound (example_socket 0 0 [control_packet True True False False, control_packet False True False False])) = control_packet True True False False # [control_packet False True False False]
   \<and> (2000000000 :: int) < 5000000000
   \<and> WaitForControlPacket True True False False 5000000000 2000000000 PickTimer (example_socket 0 0 [control_packet True True False False, control_packet False True False False])
     = Ok (None, example_socket 0 0 [control_packet False True False False])
   \<and> WaitForControlPacket True False False False 5000000000 2000000000 PickTimer (example_socket 0 0 [control_packet True True False False, control_packet False True False False])
     = Ok (Some (FlagMismatch ACK False True), example_socket 0 0 [control_packet False True False False])
   \<and> WaitForControlPacket True True False False 0 0 PickInbound (example_socket 0 0 [control_packet True True False False, control_packet False True False False])
     = Ok (None, example_socket 0 0 [control_packet False True False False])
   \<and> (5000000000 :: int) \<le> 5000000000
   \<and> buf (inbound (example_socket 0 0 [])) = []
   \<and> \<not> closed (inbound (example_socket 0 0 []))
   \<and> WaitForControlPacket True True False False 5000000000 5000000000 PickInbound
        (example_socket 0 0 [])
     = Ok (Some OperationTimedOut, example_socket 0 0 [])"
proof -
  let ?q = "control_packet False True False False"
  let ?p = "control_packet True True False False"
  let ?s = "example_socket 0 0 [control_packet True True False False, control_packet False True False False]"
  let ?s' = "example_socket 0 0 [?q]"
  let ?t = "example_socket 0 0 []"
  have b: "buf (inbound ?s) = ?p # [?q]" by (simp add: example_socket_def)
  have u: "?s\<lparr>inbound := (inbound ?s)\<lparr>buf := [?q]\<rparr>\<rparr> = ?s'" by (simp add: example_socket_def)
  have e: "buf (inbound ?t) = []" "\<not> closed (inbound ?t)" by (simp_all add: example_socket_def)
  have fl: "IsSYN ?p" "IsACK ?p" "\<not> IsFIN ?p" "\<not> IsERR ?p" by (simp_all add: control_packet_def)
  note t1 = WaitForControlPacket_outcomes
    [where s = ?s and p = ?p and rest = "[?q]" and elapsed = 2000000000 and timeout = 5000000000
       and pick = PickTimer and syn = True and ack = True and fin = False and err = False
       and ?elapsed2.0 = 5000000000 and ?pick2.0 = PickInbound and t = ?t]
  note t2 = WaitForControlPacket_outcomes
    [where s = ?s and p = ?p and rest = "[?q]" and elapsed = 2000000000 and timeout = 5000000000
       and pick = PickTimer and syn = True and ack = False and fin = False and err = False
       and ?elapsed2.0 = 5000000000 and ?pick2.0 = PickInbound and t = ?t]
  note t3 = WaitForControlPacket_outcomes
    [where s = ?s and p = ?p and rest = "[?q]" and elapsed = 0 and timeout = 0
       and pick = PickInbound and syn = True and ack = True and fin = False and err = False
       and ?elapsed2.0 = 0 and ?pick2.0 = PickTimer and t = ?t]
  have 1: "WaitForControlPacket True True False False 5000000000 2000000000 PickTimer ?s = Ok (None, ?s')"
    using t1 b fl u by simp
  have "\<exists>f. WaitForControlPacket True False False False 5000000000 2000000000 PickTimer ?s =
          Ok (Some (FlagMismatch f (requested True False False False f) (carried ?p f)), ?s')
        \<and> requested True False False False f \<noteq> carried ?p f"
    using t2 b fl u by simp
  then obtain f where
    f: "WaitForControlPacket True False False False 5000000000 2000000000 PickTimer ?s =
          Ok (Some (FlagMismatch f (requested True False False False f) (carried ?p f)), ?s')"
    and d: "requested True False False False f \<noteq> carried ?p f"
    by blast
  have "f = ACK" using d fl by (cases f) (simp_all add: requested_def carried_def)
  then have 2: "WaitForControlPacket True False False False 5000000000 2000000000 PickTimer ?s
      = Ok (Some (FlagMismatch ACK False True), ?s')"
    using f fl by (simp add: requested_def carried_def)
  have 3: "WaitForControlPacket True True False False 0 0 PickInbound ?s = Ok (None, ?s')"
    using t3 b fl u by simp
  have 4: "WaitForControlPacket True True False False 5000000000 5000000000 PickInbound ?t
      = Ok (Some OperationTimedOut, ?t)"
    using t1 e by simp
  from b 1 2 3 e 4 show ?thesis by simp
qed

text \<open>
  C7. The claim: \<open>New\<close> fails with an address error whenever the local or the remote
  address is missing or has an invalid host. The check of the remote address (line 63)
  parses \<open>c.LocalAddr.Host\<close> a second time and never \<open>c.RemoteAddr.Host\<close>. The
  evaluation: with a valid local address and a remote host that does not parse, \<open>New\<close>
  returns a socket, whose packetizer was built with a nil destination address.
\<close>

theorem New_accepts_unparseable_remote_host:
  "example_ParseIP ''not an address'' = None
   \<and> New example_ParseIP factory_args (example_config ''not an address'') =
     Inr \<lparr>lAddr = \<lparr>Host = ''10.0.0.1'', Port = 4000\<rparr>,
          rAddr = \<lparr>Host = ''not an address'', Port = 5000\<rparr>,
          txBytes = 0, rxBytes = 0, application = (),
          packetizer = (Some [10, 0, 0, 1], None, 4000, 5000),
          inbound = make_chan 100, shutdown = make_chan 1\<rparr>"
  by (simp add: New_def example_config_def example_ParseIP_def factory_args_def)

text \<open>
  C10. \<open>Close\<close> is not idempotent. A call that completes has put the signal on the
  shutdown channel, closed that channel and then closed the application connection, and
  nothing else of the socket has changed; a call on the socket it leaves, and on any
  socket whose shutdown channel is closed, faults with a send on a closed channel. On
  a socket just built by \<open>New\<close> the first call completes.
\<close>

theorem Close_twice_faults:
  "(Close s = (tr, Ok s') \<longrightarrow>
      tr = [ApplicationClose]
      \<and> s' = s\<lparr>shutdown := (shutdown s)\<lparr>buf := buf (shutdown s) @ [True], closed := True\<rparr>\<rparr>
      \<and> Close s' = ([], Panic ''send on closed channel''))
   \<and> (New ParseIP dpf c = Inr s0 \<longrightarrow> (\<exists>s1. Close s0 = ([ApplicationClose], Ok s1)))
   \<and> (closed (shutdown t) \<longrightarrow> Close t = ([], Panic ''send on closed channel''))"
proof (intro conjI impI)
  assume c: "Close s = (tr, Ok s')"
  note o = Close_open [OF Close_Ok [OF c, THEN conjunct1] Close_Ok [OF c, THEN conjunct2]]
  show "tr = [ApplicationClose]" using c o by simp
  show s': "s' = s\<lparr>shutdown := (shutdown s)\<lparr>buf := buf (shutdown s) @ [True], closed := True\<rparr>\<rparr>"
    using c o by simp
  show "Close s' = ([], Panic ''send on closed channel'')"
    by (rule Close_closed) (simp add: s')
next
  assume n: "New ParseIP dpf c = Inr s0"
  have "\<not> closed (shutdown s0)" "length (buf (shutdown s0)) < cap (shutdown s0)"
    using New_Inr [OF n] by (simp_all add: make_chan_def)
  then show "\<exists>s1. Close s0 = ([ApplicationClose], Ok s1)"
    using Close_open by blast
next
  assume "closed (shutdown t)"
  then show "Close t = ([], Panic ''send on closed channel'')" by (rule Close_closed)
qed

theorem Close_twice_faults_witness:
  "New example_ParseIP no_factory (example_config ''10.0.0.2'') = Inr (example_socket 0 0 [])
   \<and> Close (example_socket 0 0 []) =
       ([ApplicationClose],
        Ok ((example_socket 0 0 [])\<lparr>shutdown := \<lparr>buf = [True], cap = 1, closed = True\<rparr>\<rparr>))
   \<and> closed (shutdown ((example_socket 0 0 [])\<lparr>shutdown := \<lparr>buf = [True], cap = 1, closed = True\<rparr>\<rparr>))
   \<and> Close ((example_socket 0 0 [])\<lparr>shutdown := \<lparr>buf = [True], cap = 1, closed = True\<rparr>\<rparr>) =
       ([], Panic ''send on closed channel'')"
proof -
  have n: "New example_ParseIP no_factory (example_config ''10.0.0.2'') = Inr (example_socket 0 0 [])"
    by (simp add: New_def example_config_def example_ParseIP_def no_factory_def
        example_socket_def make_chan_def)
  have c: "Close (example_socket 0 0 []) =
       ([ApplicationClose],
        Ok ((example_socket 0 0 [])\<lparr>shutdown := \<lparr>buf = [True], cap = 1, closed = True\<rparr>\<rparr>))"
    by (simp add: Close_def chan_send_def chan_close_def example_socket_def)
  note t = Close_twice_faults
    [where s = "example_socket 0 0 []" and tr = "[ApplicationClose]"
       and s' = "(example_socket 0 0 [])\<lparr>shutdown := \<lparr>buf = [True], cap = 1, closed = True\<rparr>\<rparr>"
       and t = "(example_socket 0 0 [])\<lparr>shutdown := \<lparr>buf = [True], cap = 1, closed = True\<rparr>\<rparr>"
       and ParseIP = example_ParseIP and dpf = no_factory
       and c = "example_config ''10.0.0.2''" and ?s0.0 = "example_socket 0 0 []"]
  have e: "shutdown (example_socket 0 0 []) = \<lparr>buf = [], cap = 1, closed = False\<rparr>"
    by (simp add: example_socket_def)
  from t n c e show ?thesis by simp
qed

section \<open>The pumps: acknowledgements, byte counters, writes\<close>

lemma unat_ucast_length: "unat (ucast (l :: u16) :: u32) = unat l"
proof -
  have "unat l < 2 ^ 16" using unsigned_less [of l] by simp
  then have "unat l < 2 ^ 32" by simp
  then show ?thesis by (simp add: unsigned_ucast_eq take_bit_nat_eq_self)
qed

lemma unat_add_length:
  "unat ((a :: u32) + ucast (l :: u16)) = (unat a + unat l) mod 2 ^ 32"
  by (simp add: unat_word_ariths unat_ucast_length)

lemma no_wrap_length:
  "unat (a :: u32) + unat (l :: u16) < 2 ^ 32 \<Longrightarrow> a \<le> a + ucast l"
  by (simp add: no_olen_add_nat unat_ucast_length)

lemma no_wrap_count:
  assumes n: "0 \<le> n" and b: "unat (a :: u32) + nat n < 2 ^ 32"
  shows "a \<le> a + word_of_int n"
proof -
  have "nat n < 2 ^ 32" using b by simp
  then have "unat (word_of_int n :: u32) = nat n"
    using n by (simp add: unat_eq_nat_uint uint_word_of_int_eq take_bit_int_eq_self)
  then show ?thesis using b by (simp add: no_olen_add_nat)
qed

lemma receive_step_inbound:
  assumes "buf (inbound s) = p # rest"
  shows "receive_step RxInbound s =
     ([ApplicationWrite (Payload p)],
      Ok (Continue, s\<lparr>inbound := (inbound s)\<lparr>buf := rest\<rparr>, rxBytes := rxBytes s + ucast (Length p)\<rparr>))"
  using assms by (simp add: receive_step_def chan_recv_def)

lemma receive_drain:
  "buf (inbound s) = ps @ rest \<Longrightarrow>
   receive (replicate (length ps) RxInbound) s =
     (map (\<lambda>p. ApplicationWrite (Payload p)) ps,
      Ok (Continue, s\<lparr>inbound := (inbound s)\<lparr>buf := rest\<rparr>,
                      rxBytes := rxBytes s + sum_list (map (\<lambda>p. ucast (Length p)) ps)\<rparr>))"
proof (induction ps arbitrary: s)
  case Nil
  then show ?case by simp
next
  case (Cons p ps)
  let ?s' = "s\<lparr>inbound := (inbound s)\<lparr>buf := ps @ rest\<rparr>, rxBytes := rxBytes s + ucast (Length p)\<rparr>"
  have st: "receive_step RxInbound s = ([ApplicationWrite (Payload p)], Ok (Continue, ?s'))"
    using Cons.prems by (simp add: receive_step_inbound)
  have "buf (inbound ?s') = ps @ rest" by simp
  from Cons.IH [OF this] st show ?case by (simp add: add.assoc)
qed

lemma receiver_loop:
  "receiver ps s =
     (concat (map (\<lambda>p. [AtcAck (AckNo p), ApplicationWrite (Payload p)]) ps),
      s\<lparr>atc2 := fold (\<lambda>p. Ack (AckNo p)) ps (atc2 s),
        rxBytes2 := rxBytes2 s + sum_list (map (\<lambda>p. ucast (Length p)) ps)\<rparr>)"
proof (induction ps arbitrary: s)
  case Nil
  show ?case by simp
next
  case (Cons p ps)
  show ?case by (simp add: Cons.IH receiver_step_def add.assoc)
qed

lemma fold_Ack_absent:
  "n \<in> AckNo ` set ps \<Longrightarrow> inFlight (fold (\<lambda>p. Ack (AckNo p)) ps a) n = None"
proof (induction ps arbitrary: a rule: rev_induct)
  case Nil
  then show ?case by simp
next
  case (snoc p ps)
  show ?case
  proof (cases "n = AckNo p")
    case True
    then show ?thesis by (simp add: inFlight_Ack)
  next
    case False
    then have "n \<in> AckNo ` set ps" using snoc.prems by auto
    then have "inFlight (fold (\<lambda>p. Ack (AckNo p)) ps a) n = None" by (rule snoc.IH)
    then show ?thesis by (simp add: inFlight_Ack)
  qed
qed

lemma receive_step_counters:
  assumes "receive_step sel s = (tr, Ok (ctl, s'))"
  shows "txBytes s' = txBytes s"
    and "sel = RxDone \<Longrightarrow> rxBytes s' = rxBytes s"
  using assms
  by (auto simp: receive_step_def chan_recv_def chan_close_def
      split: rx_select.splits list.splits if_splits)

lemma receive_txBytes:
  "receive sels s = (tr, Ok (ctl, s')) \<Longrightarrow> txBytes s' = txBytes s"
proof (induction sels arbitrary: s tr)
  case Nil
  then show ?case by simp
next
  case (Cons sel sels)
  obtain tr1 r1 where st: "receive_step sel s = (tr1, r1)"
    by (cases "receive_step sel s") auto
  show ?case
  proof (cases r1)
    case (Ok cs)
    obtain ctl1 s1 where cs: "cs = (ctl1, s1)" by (cases cs) auto
    have f: "txBytes s1 = txBytes s"
      using receive_step_counters(1) [of sel s tr1 ctl1 s1] st Ok cs by simp
    show ?thesis
    proof (cases ctl1)
      case Continue
      obtain tr2 r2 where rest: "receive sels s1 = (tr2, r2)"
        by (cases "receive sels s1") auto
      have "r2 = Ok (ctl, s')"
        using Cons.prems st Ok cs Continue rest by simp
      then have "txBytes s' = txBytes s1" using Cons.IH [of s1 tr2] rest by simp
      then show ?thesis using f by simp
    next
      case Return
      then have "s' = s1" using Cons.prems st Ok cs by simp
      then show ?thesis using f by simp
    qed
  next
    case (Panic m)
    then show ?thesis using Cons.prems st by simp
  next
    case Blocked
    then show ?thesis using Cons.prems st by simp
  qed
qed

lemma transmit_step_counters:
  assumes "transmit_step pfm sel t = Ok (ctl, t')"
  shows "rxBytes t' = rxBytes t"
    and "txBytes t' = txBytes t
         \<or> (\<exists>b n pf'. sel = TxDefault (ReadBytes b)
               \<and> pfm (take 1500 b) (packetizer t) = ((n, None), pf')
               \<and> txBytes t' = txBytes t + word_of_int n)"
  using assms
  by (auto simp: transmit_step_def chan_send_def
      split: tx_select.splits read_result.splits prod.splits option.splits if_splits)

lemma transmit_rxBytes:
  "transmit pfm sels t = Ok (ctl, t') \<Longrightarrow> rxBytes t' = rxBytes t"
proof (induction sels arbitrary: t)
  case Nil
  then show ?case by simp
next
  case (Cons sel sels)
  show ?case
  proof (cases "transmit_step pfm sel t")
    case (Ok cs)
    obtain ctl1 t1 where cs: "cs = (ctl1, t1)" by (cases cs) auto
    have f: "rxBytes t1 = rxBytes t"
      using transmit_step_counters(1) [of pfm sel t ctl1 t1] Ok cs by simp
    show ?thesis
    proof (cases ctl1)
      case Continue
      then have "transmit pfm sels t1 = Ok (ctl, t')" using Cons.prems Ok cs by simp
      then have "rxBytes t' = rxBytes t1" by (rule Cons.IH)
      then show ?thesis using f by simp
    next
      case Return
      then have "t' = t1" using Cons.prems Ok cs by simp
      then show ?thesis using f by simp
    qed
  next
    case (Panic m)
    then show ?thesis using Cons.prems by simp
  next
    case Blocked
    then show ?thesis using Cons.prems by simp
  qed
qed

text \<open>
  C4, as stated, fails on the receive pump of the socket with the run loop: for a
  packet taken from the inbound queue, \<open>receive\<close> makes one call, the write of the
  payload, and none on a controller (that socket has none).
\<close>

theorem receive_makes_no_Ack_call:
  "fst (receive_step RxInbound (example_socket 0 0 [data_packet 0 3 [7, 8]])) =
     [ApplicationWrite [7, 8]]
   \<and> AtcAck (AckNo (data_packet 0 3 [7, 8])) \<notin>
       set (fst (receive_step RxInbound (example_socket 0 0 [data_packet 0 3 [7, 8]])))"
  by (simp add: receive_step_def chan_recv_def example_socket_def data_packet_def)

text \<open>
  C4, amended. For the packets that arrive at the socket that owns a controller, in
  order, \<open>receiver\<close> calls the controller's \<open>Ack\<close> with each packet's acknowledgement
  number and then writes its payload to the application; afterwards no acknowledged
  number is in flight and the receive counter has grown by the sum of the packets'
  \<open>Length\<close> fields, modulo \<open>2 ^ 32\<close>. The receive pump of the socket with the run loop,
  draining packets from its inbound queue, writes each payload to the application and
  adds each \<open>Length\<close> to its receive counter in the same way, and calls no \<open>Ack\<close>.
\<close>

theorem receive_pumps_effects:
  "receiver ps s =
     (concat (map (\<lambda>p. [AtcAck (AckNo p), ApplicationWrite (Payload p)]) ps),
      s\<lparr>atc2 := fold (\<lambda>p. Ack (AckNo p)) ps (atc2 s),
        rxBytes2 := rxBytes2 s + sum_list (map (\<lambda>p. ucast (Length p)) ps)\<rparr>)
   \<and> (n \<in> AckNo ` set ps \<longrightarrow> inFlight (atc2 (snd (receiver ps s))) n = None)
   \<and> unat (rxBytes2 (snd (receiver_step p s))) = (unat (rxBytes2 s) + unat (Length p)) mod 2 ^ 32
   \<and> (buf (inbound v) = qs @ rest \<longrightarrow>
        receive (replicate (length qs) RxInbound) v =
          (map (\<lambda>q. ApplicationWrite (Payload q)) qs,
           Ok (Continue, v\<lparr>inbound := (inbound v)\<lparr>buf := rest\<rparr>,
                           rxBytes := rxBytes v + sum_list (map (\<lambda>q. ucast (Length q)) qs)\<rparr>)))"
proof (intro conjI impI)
  show "receiver ps s =
     (concat (map (\<lambda>p. [AtcAck (AckNo p), ApplicationWrite (Payload p)]) ps),
      s\<lparr>atc2 := fold (\<lambda>p. Ack (AckNo p)) ps (atc2 s),
        rxBytes2 := rxBytes2 s + sum_list (map (\<lambda>p. ucast (Length p)) ps)\<rparr>)"
    by (rule receiver_loop)
  show "inFlight (atc2 (snd (receiver ps s))) n = None" if "n \<in> AckNo ` set ps"
    using fold_Ack_absent [OF that] by (simp add: receiver_loop)
  show "unat (rxBytes2 (snd (receiver_step p s))) = (unat (rxBytes2 s) + unat (Length p)) mod 2 ^ 32"
    by (simp add: receiver_step_def unat_add_length)
  show "receive (replicate (length qs) RxInbound) v =
          (map (\<lambda>q. ApplicationWrite (Payload q)) qs,
           Ok (Continue, v\<lparr>inbound := (inbound v)\<lparr>buf := rest\<rparr>,
                           rxBytes := rxBytes v + sum_list (map (\<lambda>q. ucast (Length q)) qs)\<rparr>))"
    if "buf (inbound v) = qs @ rest"
    using that by (rule receive_drain)
qed

theorem receive_pumps_effects_witness:
  "3 \<in> AckNo ` set [data_packet 0 3 [7, 8]]
   \<and> buf (inbound (example_socket 0 0 [data_packet 0 3 [7, 8]])) = [data_packet 0 3 [7, 8]] @ []
   \<and> fst (receiver [data_packet 0 3 [7, 8]] (example_socket2 [3 \<mapsto> data_packet 3 0 [1]] 0)) =
       [AtcAck 3, ApplicationWrite [7, 8]]
   \<and> inFlight (atc2 (snd (receiver [data_packet 0 3 [7, 8]]
                             (example_socket2 [3 \<mapsto> data_packet 3 0 [1]] 0)))) 3 = None
   \<and> rxBytes2 (snd (receiver [data_packet 0 3 [7, 8]]
                       (example_socket2 [3 \<mapsto> data_packet 3 0 [1]] 0))) = 2
   \<and> receive [RxInbound] (example_socket 0 0 [data_packet 0 3 [7, 8]]) =
       ([ApplicationWrite [7, 8]], Ok (Continue, example_socket 0 2 []))"
proof -
  let ?p = "data_packet 0 3 [7, 8]"
  let ?s = "example_socket2 [3 \<mapsto> data_packet 3 0 [1]] 0"
  let ?v = "example_socket 0 0 [?p]"
  have a: "3 \<in> AckNo ` set [?p]"
    by (simp add: data_packet_def)
  have b: "buf (inbound ?v) = [?p] @ []"
    by (simp add: example_socket_def)
  note t = receive_pumps_effects
    [where ps = "[?p]" and s = ?s and n = 3 and p = ?p and v = ?v and qs = "[?p]" and rest = "[]"]
  have r: "receiver [?p] ?s =
     (concat (map (\<lambda>p. [AtcAck (AckNo p), ApplicationWrite (Payload p)]) [?p]),
      ?s\<lparr>atc2 := fold (\<lambda>p. Ack (AckNo p)) [?p] (atc2 ?s),
         rxBytes2 := rxBytes2 ?s + sum_list (map (\<lambda>p. ucast (Length p)) [?p])\<rparr>)"
    using t by (rule conjunct1)
  have i: "inFlight (atc2 (snd (receiver [?p] ?s))) 3 = None"
    using t a by blast
  have d: "receive (replicate (length [?p]) RxInbound) ?v =
          (map (\<lambda>q. ApplicationWrite (Payload q)) [?p],
           Ok (Continue, ?v\<lparr>inbound := (inbound ?v)\<lparr>buf := []\<rparr>,
                            rxBytes := rxBytes ?v + sum_list (map (\<lambda>q. ucast (Length q)) [?p])\<rparr>))"
    using t b by blast
  have c: "AckNo ?p = 3" "Payload ?p = [7, 8]" "Length ?p = 2"
    by (simp_all add: data_packet_def)
  have 1: "fst (receiver [?p] ?s) = [AtcAck 3, ApplicationWrite [7, 8]]"
    unfolding r by (simp add: c)
  have 2: "rxBytes2 (snd (receiver [?p] ?s)) = 2"
    unfolding r by (simp add: c example_socket2_def)
  have e: "?v\<lparr>inbound := (inbound ?v)\<lparr>buf := []\<rparr>,
              rxBytes := rxBytes ?v + sum_list (map (\<lambda>q. ucast (Length q)) [?p])\<rparr>
           = example_socket 0 2 []"
    by (simp add: c example_socket_def)
  have l: "replicate (length [?p]) RxInbound = [RxInbound]" by simp
  have 3: "receive [RxInbound] ?v = ([ApplicationWrite [7, 8]], Ok (Continue, example_socket 0 2 []))"
    using d unfolding e l by (simp add: c)
  from a b 1 i 2 3 show ?thesis by blast
qed

text \<open>
  C8, as stated, fails: the counters are 32-bit and wrap around. A receive counter at
  \<open>2 ^ 32 - 1\<close> drops to 0 when the pump takes a packet of length 1.
\<close>

theorem rxBytes_wraps_around:
  "receive_step RxInbound (example_socket 0 4294967295 [data_packet 0 0 [9]]) =
     ([ApplicationWrite [9]], Ok (Continue, example_socket 0 0 []))
   \<and> rxBytes (example_socket 0 0 []) < rxBytes (example_socket 0 4294967295 [data_packet 0 0 [9]])"
  by (simp add: receive_step_def chan_recv_def example_socket_def data_packet_def)

text \<open>
  C8, amended. Over any run of the receive pump the transmit counter keeps its value,
  and over any run of the transmit pump the receive counter keeps its value; \<open>Close\<close>,
  \<open>WaitForControlPacket\<close>, \<open>Deliver\<close> and \<open>SendControlPacket\<close> change neither. A pass of the receive pump that
  takes a packet adds the packet's \<open>Length\<close> to the receive counter modulo \<open>2 ^ 32\<close>, and
  its \<open>done\<close> pass leaves the counter alone; a pass of the transmit pump either leaves
  the transmit counter alone or adds the count the packetizer returned for the chunk,
  modulo \<open>2 ^ 32\<close>. A counter does not decrease in a pass whose sum stays below
  \<open>2 ^ 32\<close>.
\<close>

theorem byte_counters_owned_and_modular:
  "(receive sels s = (tr, Ok (ctl, s')) \<longrightarrow> txBytes s' = txBytes s)
   \<and> (transmit pfm tsels t = Ok (tctl, t') \<longrightarrow> rxBytes t' = rxBytes t)
   \<and> (buf (inbound v) = p # rest \<longrightarrow>
        (\<exists>v'. receive_step RxInbound v = ([ApplicationWrite (Payload p)], Ok (Continue, v'))
           \<and> unat (rxBytes v') = (unat (rxBytes v) + unat (Length p)) mod 2 ^ 32
           \<and> (unat (rxBytes v) + unat (Length p) < 2 ^ 32 \<longrightarrow> rxBytes v \<le> rxBytes v')))
   \<and> (receive_step RxDone v = (tr1, Ok (ctl1, v1)) \<longrightarrow> rxBytes v1 = rxBytes v)
   \<and> (transmit_step pfm sel u = Ok (ctl2, u') \<longrightarrow>
        txBytes u' = txBytes u
        \<or> (\<exists>b n pf'. sel = TxDefault (ReadBytes b)
              \<and> pfm (take 1500 b) (packetizer u) = ((n, None), pf')
              \<and> txBytes u' = txBytes u + word_of_int n
              \<and> (0 \<le> n \<and> unat (txBytes u) + nat n < 2 ^ 32 \<longrightarrow> txBytes u \<le> txBytes u')))
   \<and> (Close x = (tr2, Ok x') \<longrightarrow> txBytes x' = txBytes x \<and> rxBytes x' = rxBytes x)
   \<and> (WaitForControlPacket syn ack fin err timeout elapsed pick y = Ok (e, y') \<longrightarrow>
        txBytes y' = txBytes y \<and> rxBytes y' = rxBytes y)
   \<and> (Deliver q z = Ok z' \<longrightarrow> txBytes z' = txBytes z \<and> rxBytes z' = rxBytes z)
   \<and> txBytes (snd (SendControlPacket pfc syn ack fin err z)) = txBytes z
   \<and> rxBytes (snd (SendControlPacket pfc syn ack fin err z)) = rxBytes z"
proof (intro conjI impI)
  show "txBytes s' = txBytes s" if "receive sels s = (tr, Ok (ctl, s'))"
    using that by (rule receive_txBytes)
  show "rxBytes t' = rxBytes t" if "transmit pfm tsels t = Ok (tctl, t')"
    using that by (rule transmit_rxBytes)
  show "\<exists>v'. receive_step RxInbound v = ([ApplicationWrite (Payload p)], Ok (Continue, v'))
           \<and> unat (rxBytes v') = (unat (rxBytes v) + unat (Length p)) mod 2 ^ 32
           \<and> (unat (rxBytes v) + unat (Length p) < 2 ^ 32 \<longrightarrow> rxBytes v \<le> rxBytes v')"
    if b: "buf (inbound v) = p # rest"
  proof (intro exI conjI impI)
    show "receive_step RxInbound v =
        ([ApplicationWrite (Payload p)],
         Ok (Continue, v\<lparr>inbound := (inbound v)\<lparr>buf := rest\<rparr>, rxBytes := rxBytes v + ucast (Length p)\<rparr>))"
      using b by (rule receive_step_inbound)
    show "unat (rxBytes (v\<lparr>inbound := (inbound v)\<lparr>buf := rest\<rparr>, rxBytes := rxBytes v + ucast (Length p)\<rparr>))
        = (unat (rxBytes v) + unat (Length p)) mod 2 ^ 32"
      by (simp add: unat_add_length)
    show "rxBytes v \<le> rxBytes (v\<lparr>inbound := (inbound v)\<lparr>buf := rest\<rparr>, rxBytes := rxBytes v + ucast (Length p)\<rparr>)"
      if "unat (rxBytes v) + unat (Length p) < 2 ^ 32"
      using no_wrap_length [OF that] by simp
  qed
  show "rxBytes v1 = rxBytes v" if "receive_step RxDone v = (tr1, Ok (ctl1, v1))"
    using receive_step_counters(2) [OF that] by simp
  show "txBytes u' = txBytes u
        \<or> (\<exists>b n pf'. sel = TxDefault (ReadBytes b)
              \<and> pfm (take 1500 b) (packetizer u) = ((n, None), pf')
              \<and> txBytes u' = txBytes u + word_of_int n
              \<and> (0 \<le> n \<and> unat (txBytes u) + nat n < 2 ^ 32 \<longrightarrow> txBytes u \<le> txBytes u'))"
    if "transmit_step pfm sel u = Ok (ctl2, u')"
    using transmit_step_counters(2) [OF that] no_wrap_count [of _ "txBytes u"] by metis
  show "txBytes x' = txBytes x" "rxBytes x' = rxBytes x" if "Close x = (tr2, Ok x')"
    using that
    by (auto simp: Close_def chan_send_def chan_close_def split: if_splits)
  show "txBytes y' = txBytes y" "rxBytes y' = rxBytes y"
    if "WaitForControlPacket syn ack fin err timeout elapsed pick y = Ok (e, y')"
    using that
    by (auto simp: WaitForControlPacket_def chan_recv_def Let_def split: list.splits if_splits)
  show "txBytes z' = txBytes z" "rxBytes z' = rxBytes z" if "Deliver q z = Ok z'"
    using that
    by (auto simp: Deliver_def chan_send_def split: if_splits)
  show "txBytes (snd (SendControlPacket pfc syn ack fin err z)) = txBytes z"
    "rxBytes (snd (SendControlPacket pfc syn ack fin err z)) = rxBytes z"
    by (simp_all add: SendControlPacket_def split: prod.splits)
qed

theorem byte_counters_owned_and_modular_witness:
  "receive [RxInbound, RxDone] (example_socket 7 10 [data_packet 0 0 [9]]) =
       ([ApplicationWrite [9]],
        Ok (Return, (example_socket 7 11 [])\<lparr>inbound := \<lparr>buf = [], cap = 100, closed = True\<rparr>\<rparr>))
   \<and> txBytes ((example_socket 7 11 [])\<lparr>inbound := \<lparr>buf = [], cap = 100, closed = True\<rparr>\<rparr>)
       = txBytes (example_socket 7 10 [data_packet 0 0 [9]])
   \<and> transmit consume_all [TxDefault (ReadBytes [1, 2, 3]), TxDone] (example_socket 7 10 []) =
       Ok (Return, example_socket 10 10 [])
   \<and> rxBytes (example_socket 10 10 []) = rxBytes (example_socket 7 10 [])
   \<and> buf (inbound (example_socket 7 10 [data_packet 0 0 [9]])) = data_packet 0 0 [9] # []
   \<and> receive_step RxInbound (example_socket 7 10 [data_packet 0 0 [9]]) =
       ([ApplicationWrite [9]], Ok (Continue, example_socket 7 11 []))
   \<and> unat (rxBytes (example_socket 7 10 [data_packet 0 0 [9]])) + unat (Length (data_packet 0 0 [9]))
       < 2 ^ 32
   \<and> rxBytes (example_socket 7 10 [data_packet 0 0 [9]]) \<le> rxBytes (example_socket 7 11 [])
   \<and> transmit_step consume_all (TxDefault (ReadBytes [1, 2, 3])) (example_socket 7 10 []) =
       Ok (Continue, example_socket 10 10 [])
   \<and> Close (example_socket 7 10 []) =
       ([ApplicationClose],
        Ok ((example_socket 7 10 [])\<lparr>shutdown := \<lparr>buf = [True], cap = 1, closed = True\<rparr>\<rparr>))
   \<and> rxBytes ((example_socket 7 10 [])\<lparr>shutdown := \<lparr>buf = [True], cap = 1, closed = True\<rparr>\<rparr>)
       = rxBytes (example_socket 7 10 [])
   \<and> Deliver (data_packet 0 0 [9]) (example_socket 7 10 []) =
       Ok (example_socket 7 10 [data_packet 0 0 [9]])
   \<and> txBytes (example_socket 7 10 [data_packet 0 0 [9]]) = txBytes (example_socket 7 10 [])"
proof -
  let ?p = "data_packet 0 0 [9]"
  let ?v = "example_socket 7 10 [?p]"
  let ?u = "example_socket 7 10 []"
  let ?v1 = "example_socket 7 11 []"
  let ?v2 = "(example_socket 7 11 [])\<lparr>inbound := \<lparr>buf = [], cap = 100, closed = True\<rparr>\<rparr>"
  let ?u1 = "example_socket 10 10 []"
  let ?x1 = "(example_socket 7 10 [])\<lparr>shutdown := \<lparr>buf = [True], cap = 1, closed = True\<rparr>\<rparr>"
  have st: "receive_step RxInbound ?v = ([ApplicationWrite [9]], Ok (Continue, ?v1))"
    by (simp add: receive_step_def chan_recv_def example_socket_def data_packet_def)
  have dn: "receive_step RxDone ?v1 = ([], Ok (Return, ?v2))"
    by (simp add: receive_step_def chan_close_def example_socket_def)
  have rc: "receive [RxInbound, RxDone] ?v = ([ApplicationWrite [9]], Ok (Return, ?v2))"
    by (simp add: st dn)
  have ts: "transmit_step consume_all (TxDefault (ReadBytes [1, 2, 3])) ?u = Ok (Continue, ?u1)"
    by (simp add: transmit_step_def consume_all_def example_socket_def)
  have td: "transmit_step consume_all TxDone ?u1 = Ok (Return, ?u1)"
    by (simp add: transmit_step_def)
  have tr: "transmit consume_all [TxDefault (ReadBytes [1, 2, 3]), TxDone] ?u = Ok (Return, ?u1)"
    by (simp add: ts td)
  have b: "buf (inbound ?v) = ?p # []"
    by (simp add: example_socket_def)
  have nw: "unat (rxBytes ?v) + unat (Length ?p) < 2 ^ 32"
    by (simp add: example_socket_def data_packet_def)
  have cl: "Close ?u = ([ApplicationClose], Ok ?x1)"
    by (simp add: Close_def chan_send_def chan_close_def example_socket_def)
  have dl: "Deliver ?p ?u = Ok ?v"
    by (simp add: Deliver_def chan_send_def example_socket_def)
  note t = byte_counters_owned_and_modular
    [where sels = "[RxInbound, RxDone]" and s = ?v and tr = "[ApplicationWrite [9]]"
       and ctl = Return and s' = ?v2
       and pfm = consume_all and tsels = "[TxDefault (ReadBytes [1, 2, 3]), TxDone]"
       and t = ?u and tctl = Return and t' = ?u1
       and v = ?v and p = ?p and rest = "[]"
       and x = ?u and ?tr2.0 = "[ApplicationClose]" and x' = ?x1
       and q = ?p and z = ?u and z' = ?v]
  have 1: "txBytes ?v2 = txBytes ?v" using t rc by blast
  have 2: "rxBytes ?u1 = rxBytes ?u" using t tr by blast
  have "\<exists>v'. receive_step RxInbound ?v = ([ApplicationWrite (Payload ?p)], Ok (Continue, v'))
           \<and> unat (rxBytes v') = (unat (rxBytes ?v) + unat (Length ?p)) mod 2 ^ 32
           \<and> (unat (rxBytes ?v) + unat (Length ?p) < 2 ^ 32 \<longrightarrow> rxBytes ?v \<le> rxBytes v')"
    using t b by blast
  then obtain v' where
    v': "receive_step RxInbound ?v = ([ApplicationWrite (Payload ?p)], Ok (Continue, v'))"
    and le: "unat (rxBytes ?v) + unat (Length ?p) < 2 ^ 32 \<longrightarrow> rxBytes ?v \<le> rxBytes v'"
    by blast
  have "v' = ?v1" using v' st by simp
  then have 3: "rxBytes ?v \<le> rxBytes ?v1" using le nw by blast
  have 4: "rxBytes ?x1 = rxBytes ?u" using t cl by blast
  have 5: "txBytes ?v = txBytes ?u" using t dl by blast
  from rc 1 tr 2 b st nw 3 ts cl 4 dl 5 show ?thesis by blast
qed

end
